theory Spec2Isabelle
  imports Main "HOL-Library.Sublist"
begin

section \<open>JavaScript string and array operations used by the action\<close>

text \<open>
  Strings are modelled as \<open>string\<close> (lists of 8-bit characters): the UTF-8 bytes of the
  text, which is taken to be well-formed. The emoji of the comment bodies are written as
  their UTF-8 bytes.
\<close>


text \<open>
  The white space and line terminators of ECMAScript, which \<open>String.prototype.trim\<close>
  removes, each in UTF-8: the six ASCII characters, U+00A0, U+1680, U+2000 to U+200A,
  U+2028, U+2029, U+202F, U+205F, U+3000 and U+FEFF.
\<close>

definition white_space :: "string list" where
  "white_space =
     [[CHR 0x09], [CHR 0x0A], [CHR 0x0B], [CHR 0x0C], [CHR 0x0D], [CHR 0x20],
      [CHR 0xC2, CHR 0xA0],
      [CHR 0xE1, CHR 0x9A, CHR 0x80],
      [CHR 0xE2, CHR 0x80, CHR 0x80], [CHR 0xE2, CHR 0x80, CHR 0x81],
      [CHR 0xE2, CHR 0x80, CHR 0x82], [CHR 0xE2, CHR 0x80, CHR 0x83],
      [CHR 0xE2, CHR 0x80, CHR 0x84], [CHR 0xE2, CHR 0x80, CHR 0x85],
      [CHR 0xE2, CHR 0x80, CHR 0x86], [CHR 0xE2, CHR 0x80, CHR 0x87],
      [CHR 0xE2, CHR 0x80, CHR 0x88], [CHR 0xE2, CHR 0x80, CHR 0x89],
      [CHR 0xE2, CHR 0x80, CHR 0x8A],
      [CHR 0xE2, CHR 0x80, CHR 0xA8], [CHR 0xE2, CHR 0x80, CHR 0xA9],
      [CHR 0xE2, CHR 0x80, CHR 0xAF],
      [CHR 0xE2, CHR 0x81, CHR 0x9F],
      [CHR 0xE3, CHR 0x80, CHR 0x80],
      [CHR 0xEF, CHR 0xBB, CHR 0xBF]]"

text \<open>
  \<open>s.trimStart()\<close> and \<open>s.trimEnd()\<close>: white-space characters are removed from the start,
  or from the end, as long as there is one.
\<close>

function trimStart :: "string \<Rightarrow> string" where
  "trimStart s =
     (case find (\<lambda>w. prefix w s) white_space of
        None \<Rightarrow> s
      | Some w \<Rightarrow> trimStart (drop (length w) s))"
  by pat_completeness auto
termination
proof (relation "measure length")
  show "wf (measure length)" by simp
next
  fix s w :: string
  assume "find (\<lambda>w. prefix w s) white_space = Some w"
  then have "w \<in> set white_space" and p: "prefix w s"
    by (auto simp add: find_Some_iff)
  then have "w \<noteq> []" by (auto simp add: white_space_def)
  moreover from p have "length w \<le> length s" by (rule prefix_length_le)
  ultimately show "(drop (length w) s, s) \<in> measure length" by (cases w) auto
qed

declare trimStart.simps [simp del]

function trimEnd :: "string \<Rightarrow> string" where
  "trimEnd s =
     (case find (\<lambda>w. suffix w s) white_space of
        None \<Rightarrow> s
      | Some w \<Rightarrow> trimEnd (take (length s - length w) s))"
  by pat_completeness auto
termination
proof (relation "measure length")
  show "wf (measure length)" by simp
next
  fix s w :: string
  assume "find (\<lambda>w. suffix w s) white_space = Some w"
  then have "w \<in> set white_space" and p: "suffix w s"
    by (auto simp add: find_Some_iff)
  then have "w \<noteq> []" by (auto simp add: white_space_def)
  moreover from p have "length w \<le> length s" by (rule suffix_length_le)
  ultimately show "(take (length s - length w) s, s) \<in> measure length" by (cases w) auto
qed

declare trimEnd.simps [simp del]

text \<open>\<open>s.trim()\<close>\<close>

definition trim :: "string \<Rightarrow> string" where
  "trim s = trimEnd (trimStart s)"

text \<open>\<open>s.includes(t)\<close>: \<open>t\<close> occurs in \<open>s\<close> as a contiguous substring.\<close>

fun includes_str :: "string \<Rightarrow> string \<Rightarrow> bool" where
  "includes_str [] t = (t = [])"
| "includes_str (c # cs) t = (prefix t (c # cs) \<or> includes_str cs t)"

text \<open>\<open>s.split(sep)\<close> for a one-character separator; the result is never empty.\<close>

fun split_on :: "char \<Rightarrow> string \<Rightarrow> string list" where
  "split_on sep [] = [[]]"
| "split_on sep (c # cs) =
     (if c = sep then [] # split_on sep cs
      else (case split_on sep cs of
              [] \<Rightarrow> [[c]]
            | l # ls \<Rightarrow> (c # l) # ls))"

text \<open>\<open>xs.join(sep)\<close>\<close>

fun join :: "string \<Rightarrow> string list \<Rightarrow> string" where
  "join sep [] = []"
| "join sep [x] = x"
| "join sep (x # y # ys) = x @ sep @ join sep (y # ys)"

text \<open>
  \<open>s.replace(pat, rep)\<close> with a string pattern: only the first occurrence is replaced.
  (The replacement used by the action is the empty string, so the special replacement
  patterns of JavaScript play no role.)
\<close>

fun replace :: "string \<Rightarrow> string \<Rightarrow> string \<Rightarrow> string" where
  "replace [] pat rep = (if pat = [] then rep else [])"
| "replace (c # cs) pat rep =
     (if prefix pat (c # cs) then rep @ drop (length pat) (c # cs)
      else c # replace cs pat rep)"

text \<open>\<open>xs.pop()\<close> followed by use of \<open>xs\<close>, and \<open>xs.shift()\<close> followed by use of \<open>xs\<close>.\<close>

definition pop :: "'a list \<Rightarrow> 'a list" where
  "pop xs = butlast xs"

definition shift :: "'a list \<Rightarrow> 'a list" where
  "shift xs = tl xs"

text \<open>
  \<open>JSON.stringify(s)\<close> for a string: the text between double quotes, with the double
  quote, the backslash and the control characters below 0x20 escaped.
\<close>

definition hex_digit :: "nat \<Rightarrow> char" where
  "hex_digit n = (if n < 10 then char_of (48 + n) else char_of (87 + n))"

definition json_escape :: "char \<Rightarrow> string" where
  "json_escape c =
     (if c = CHR 0x22 then [CHR 0x5C, CHR 0x22]
      else if c = CHR 0x5C then [CHR 0x5C, CHR 0x5C]
      else if c = CHR 0x08 then [CHR 0x5C, CHR ''b'']
      else if c = CHR 0x0C then [CHR 0x5C, CHR ''f'']
      else if c = CHR 0x0A then [CHR 0x5C, CHR ''n'']
      else if c = CHR 0x0D then [CHR 0x5C, CHR ''r'']
      else if c = CHR 0x09 then [CHR 0x5C, CHR ''t'']
      else if (of_char c :: nat) < 32
        then [CHR 0x5C, CHR ''u'', CHR ''0'', CHR ''0'',
              hex_digit ((of_char c :: nat) div 16), hex_digit ((of_char c :: nat) mod 16)]
      else [c])"

definition JSON_stringify :: "string \<Rightarrow> string" where
  "JSON_stringify s = [CHR 0x22] @ concat (map json_escape s) @ [CHR 0x22]"

text \<open>
  \<open>/\.(e1|e2|...)$/.test(f)\<close>: without the multiline flag, \<open>$\<close> matches only at the
  end of the input, so the test is that \<open>f\<close> ends with a dot followed by one of the
  extensions.
\<close>

definition ext_test :: "string list \<Rightarrow> string \<Rightarrow> bool" where
  "ext_test exts f = list_ex (\<lambda>e. suffix (''.'' @ e) f) exts"

section \<open>The data model\<close>

text \<open>An entry of the pull request's file list (\<open>pulls.listFiles\<close>).\<close>

record changed_file =
  filename :: string
  status :: string

text \<open>An issue comment of the pull request.\<close>

record comment =
  comment_id :: nat
  body :: string

text \<open>The outcome of a child process: exit code and the two captured streams.\<close>

record process =
  exit_code :: int
  proc_stdout :: string
  proc_stderr :: string

text \<open>The error with which \<open>exec\<close> rejects (\<open>ExecException\<close>), carrying the streams.\<close>

record exec_exception =
  code :: int
  error_stdout :: string
  error_stderr :: string

text \<open>The value returned by \<open>runExec\<close>.\<close>

record child_result =
  err :: "exec_exception option"
  stdout :: string
  stderr :: string

text \<open>
  What the run does to the outside world, in the order in which it does it: commands
  executed, comments written, and the calls to \<open>setFailed\<close>, \<open>setOutput\<close> and
  \<open>console.log\<close>.
\<close>

datatype effect =
    Exec string
  | UpdateComment nat string
  | CreateComment string
  | SetFailed string
  | SetOutput string int
  | ConsoleLog string

text \<open>
  The host of a run: the file-list endpoint (page size and page number to the page's
  entries), the \<open>prettier-ignore\<close> input, the file system (path to content), the matcher
  of the \<open>ignore\<close> package (ignore-file content and path to the verdict) and the shell
  (command line to process outcome).
\<close>

record host =
  listFiles :: "nat \<Rightarrow> nat \<Rightarrow> changed_file list"
  prettierIgnore :: string
  fs :: "string \<Rightarrow> string option"
  ignores :: "string \<Rightarrow> string \<Rightarrow> bool"
  shell :: "string \<Rightarrow> process"

text \<open>
  The file-list endpoint of a pull request whose file list is \<open>files\<close>: page \<open>p\<close>
  (counted from 1) of size \<open>per_page\<close>.
\<close>

definition github_listFiles :: "changed_file list \<Rightarrow> nat \<Rightarrow> nat \<Rightarrow> changed_file list" where
  "github_listFiles files per_page page = take per_page (drop ((page - 1) * per_page) files)"

text \<open>
  The comment endpoints. The comments of a pull request are kept in creation order.
  \<open>listComments\<close>, called as the action calls it, with neither \<open>per_page\<close> nor \<open>page\<close>,
  returns the first page, which has the default size of 30 comments; \<open>updateComment\<close>
  replaces the body of the comment with the given id; \<open>createComment\<close> appends a comment
  with a fresh id.
\<close>

definition listComments :: "comment list \<Rightarrow> comment list" where
  "listComments comments = take 30 comments"

definition updateComment :: "nat \<Rightarrow> string \<Rightarrow> comment list \<Rightarrow> comment list" where
  "updateComment i b cs = map (\<lambda>c. if comment_id c = i then c\<lparr>body := b\<rparr> else c) cs"

definition createComment :: "string \<Rightarrow> comment list \<Rightarrow> comment list" where
  "createComment b cs = cs @ [\<lparr>comment_id = Suc (foldr max (map comment_id cs) 0), body = b\<rparr>]"

text \<open>
  \<open>child_process.exec\<close>, promisified: resolves with the two streams when the process
  exits with code 0 and rejects with an \<open>ExecException\<close> otherwise.
\<close>

definition exec :: "(string \<Rightarrow> process) \<Rightarrow> string \<Rightarrow> exec_exception + (string \<times> string)" where
  "exec sh cmd =
     (let p = sh cmd in
      if exit_code p = 0 then Inr (proc_stdout p, proc_stderr p)
      else Inl \<lparr>code = exit_code p, error_stdout = proc_stdout p, error_stderr = proc_stderr p\<rparr>)"

section \<open>The action (src/unnamed/part_000)\<close>

subsection \<open>getAllChangedFiles\<close>

text \<open>
  The \<open>while (true)\<close> loop over the pages. Its state is the list collected so far and
  the page counter; it ends at the first empty page and need not end at all, so the
  result is optional. The final page counter is returned with the list.
\<close>

partial_function (option) getAllChangedFiles_loop ::
  "(nat \<Rightarrow> nat \<Rightarrow> changed_file list) \<Rightarrow> string list \<Rightarrow> nat \<Rightarrow> (string list \<times> nat) option" where
  "getAllChangedFiles_loop api changedFiles page =
     (let files = api 100 page in
      if length files = 0 then Some (changedFiles, page)
      else
        let notDeletedFiles = filter (\<lambda>f. status f \<noteq> ''removed'') files in
        getAllChangedFiles_loop api (changedFiles @ map filename notDeletedFiles) (page + 1))"

declare getAllChangedFiles_loop.simps [code]

definition getAllChangedFiles :: "(nat \<Rightarrow> nat \<Rightarrow> changed_file list) \<Rightarrow> string list option" where
  "getAllChangedFiles api = map_option fst (getAllChangedFiles_loop api [] 1)"

subsection \<open>The filters on the change set (lines 40 to 45)\<close>

definition allowed_extensions :: "string list" where
  "allowed_extensions =
     [''js'', ''jsx'', ''ts'', ''tsx'', ''json'', ''json5'', ''css'', ''less'', ''scss'', ''sass'',
      ''html'', ''md'', ''mdx'', ''vue'']"

text \<open>
  The extension filter, then, when the file named by the \<open>prettier-ignore\<close> input
  exists, the filter that drops the filenames its rules ignore.
\<close>

definition filterChangedFiles :: "host \<Rightarrow> string list \<Rightarrow> string list" where
  "filterChangedFiles h allFiles =
     (let changedFiles = filter (ext_test allowed_extensions) allFiles in
      case fs h (prettierIgnore h) of
        None \<Rightarrow> changedFiles
      | Some content \<Rightarrow> filter (\<lambda>f. \<not> ignores h content f) changedFiles)"

subsection \<open>runExec\<close>

definition runExec :: "(string \<Rightarrow> process) \<Rightarrow> string \<Rightarrow> child_result" where
  "runExec sh cmd =
     (case exec sh cmd of
        Inr (out, errs) \<Rightarrow> \<lparr>err = None, stdout = out, stderr = errs\<rparr>
      | Inl error \<Rightarrow> \<lparr>err = Some error, stdout = [], stderr = error_stderr error\<rparr>)"

subsection \<open>The comment bodies\<close>

definition commentIdentifier :: string where
  "commentIdentifier = ''<!-- prettier-check-comment -->''"

definition LF :: char where
  "LF = CHR 0x0A"

text \<open>The emoji U+1F389, U+1F6A8 and U+1F484 in UTF-8.\<close>

definition party_popper :: string where
  "party_popper = [CHR 0xF0, CHR 0x9F, CHR 0x8E, CHR 0x89]"

definition police_light :: string where
  "police_light = [CHR 0xF0, CHR 0x9F, CHR 0x9A, CHR 0xA8]"

definition lipstick :: string where
  "lipstick = [CHR 0xF0, CHR 0x9F, CHR 0x92, CHR 0x84]"

text \<open>The body of lines 61 and 84.\<close>

definition passed_body :: string where
  "passed_body = commentIdentifier @ [LF] @ ''Prettier check passed! '' @ party_popper"

text \<open>The check-mode command line of line 79.\<close>

definition checkCommand :: "string list \<Rightarrow> string" where
  "checkCommand changedFiles = ''npx prettier --check '' @ join '' '' changedFiles"

text \<open>The remediation command of lines 86 to 91.\<close>

definition prettierCommand :: "string \<Rightarrow> string" where
  "prettierCommand prettierOutput =
     (let lines = pop (split_on LF (trim prettierOutput)) in
      ''npx prettier --write '' @
        join '' '' (map JSON_stringify (map (\<lambda>line. replace (trim line) ''[warn] '' []) lines)))"

text \<open>The body of line 92.\<close>

definition failed_body :: "string \<Rightarrow> string" where
  "failed_body prettierOutput =
     commentIdentifier @ [LF] @ police_light @
     '' Prettier check failed for the following files:'' @ [LF, LF] @
     ''```'' @ [LF] @ trim prettierOutput @ [LF] @ ''```'' @ [LF, LF] @
     ''To fix the issue, run the following command:'' @ [LF, LF] @
     ''```'' @ [LF] @ prettierCommand prettierOutput @ [LF] @ ''```''"

subsection \<open>Finding and writing the marker comment\<close>

text \<open>The predicate of \<open>comments.find\<close>: the body contains the sentinel.\<close>

definition is_marker :: "comment \<Rightarrow> bool" where
  "is_marker c = includes_str (body c) commentIdentifier"

text \<open>
  Lines 62 to 77: the first page of the comments is listed, the first marker comment on it
  is looked up, and it is updated when there is one. The result is the new comment list
  and the write made.
\<close>

definition updateOnly :: "string \<Rightarrow> comment list \<Rightarrow> comment list \<times> effect list" where
  "updateOnly newBody comments =
     (case find is_marker (listComments comments) of
        Some c \<Rightarrow> (updateComment (comment_id c) newBody comments,
                   [UpdateComment (comment_id c) newBody])
      | None \<Rightarrow> (comments, []))"

text \<open>Lines 95 to 117: as before, but a comment is created when none is found.\<close>

definition upsert :: "string \<Rightarrow> comment list \<Rightarrow> comment list \<times> effect list" where
  "upsert newBody comments =
     (case find is_marker (listComments comments) of
        Some c \<Rightarrow> (updateComment (comment_id c) newBody comments,
                   [UpdateComment (comment_id c) newBody])
      | None \<Rightarrow> (createComment newBody comments, [CreateComment newBody]))"

subsection \<open>run\<close>

text \<open>
  The run takes the host and the comments of the pull request and returns the comments
  after the run with the effects in order; \<open>None\<close> when the pagination never ends. The
  calls to the hosting platform are taken to succeed.
\<close>

definition run :: "host \<Rightarrow> comment list \<Rightarrow> (comment list \<times> effect list) option" where
  "run h comments =
     (case getAllChangedFiles (listFiles h) of
        None \<Rightarrow> None
      | Some allFiles \<Rightarrow>
          let changedFiles = filterChangedFiles h allFiles in
          if length changedFiles = 0 then Some (updateOnly passed_body comments)
          else
            let cmd = checkCommand changedFiles;
                child = runExec (shell h) cmd;
                prettierOutput = trim (stderr child);
                newBody = (if err child = None then passed_body else failed_body prettierOutput);
                (comments', written) = upsert newBody comments
            in Some (comments',
                     [Exec cmd] @ written @
                     (if err child \<noteq> None
                      then [SetFailed ''Prettier check failed'', SetOutput ''exitCode'' 1]
                      else [ConsoleLog ''Prettier check passed'', SetOutput ''exitCode'' 0])))"

section \<open>The minimal variant (src/main.ts)\<close>

text \<open>
  The errors that abort this variant: \<open>execSync\<close> throws when the command exits with a
  non-zero code, \<open>readFileSync\<close> throws when the file is missing, and \<open>core\<close> is used
  without being imported.
\<close>

datatype js_error =
    ExecSyncError int
  | ENOENT string
  | ReferenceError string

definition execSync :: "(string \<Rightarrow> process) \<Rightarrow> string \<Rightarrow> js_error + string" where
  "execSync sh cmd =
     (let p = sh cmd in
      if exit_code p = 0 then Inr (proc_stdout p) else Inl (ExecSyncError (exit_code p)))"

partial_function (option) main_getAllChangedFiles_loop ::
  "(nat \<Rightarrow> nat \<Rightarrow> changed_file list) \<Rightarrow> string list \<Rightarrow> nat \<Rightarrow> (string list \<times> nat) option" where
  "main_getAllChangedFiles_loop api changedFiles page =
     (let files = api 100 page in
      if length files = 0 then Some (changedFiles, page)
      else main_getAllChangedFiles_loop api (changedFiles @ map filename files) (page + 1))"

declare main_getAllChangedFiles_loop.simps [code]

definition main_getAllChangedFiles :: "(nat \<Rightarrow> nat \<Rightarrow> changed_file list) \<Rightarrow> string list option" where
  "main_getAllChangedFiles api = map_option fst (main_getAllChangedFiles_loop api [] 1)"

definition main_allowed_extensions :: "string list" where
  "main_allowed_extensions = [''js'', ''jsx'', ''ts'', ''tsx'', ''json'', ''css'', ''md'']"

text \<open>The bodies of lines 36, 66 and 73, and the command of line 72.\<close>

definition main_body :: string where
  "main_body = commentIdentifier @ [LF] @ ''Prettier check passed! '' @ party_popper"

definition main_passed_body :: string where
  "main_passed_body =
     commentIdentifier @ [LF] @ ''**'' @ lipstick @ ''Prettier check passed!** '' @ party_popper"

definition main_prettierCommand :: "string \<Rightarrow> string" where
  "main_prettierCommand PRETTIER_OUTPUT =
     (let lines = pop (shift (split_on LF (trim PRETTIER_OUTPUT))) in
      ''npx prettier --write '' @
        join '' '' (map (\<lambda>line. replace (trim line) ''[warn] '' []) lines))"

definition main_failed_body :: "string \<Rightarrow> string" where
  "main_failed_body PRETTIER_OUTPUT =
     commentIdentifier @ [LF] @ police_light @
     ''Prettier check failed for the following files:'' @ [LF, LF] @
     ''```'' @ [LF] @ trim PRETTIER_OUTPUT @ [LF] @ ''```'' @ [LF, LF] @
     ''To fix the issue, run the following command:'' @ [LF, LF] @
     ''```'' @ [LF] @ main_prettierCommand PRETTIER_OUTPUT @ [LF] @ ''```''"

text \<open>
  The run of the minimal variant returns, with the comments and the effects, the error
  that aborted it, if any.
\<close>

definition main_run ::
  "host \<Rightarrow> comment list \<Rightarrow> (comment list \<times> effect list \<times> js_error option) option" where
  "main_run h comments =
     (case main_getAllChangedFiles (listFiles h) of
        None \<Rightarrow> None
      | Some allFiles \<Rightarrow>
          let changedFiles = filter (ext_test main_allowed_extensions) allFiles in
          if length changedFiles = 0 then
            (let (comments', written) = updateOnly main_body comments
             in Some (comments', written, None))
          else
            let cmd = checkCommand changedFiles in
            (case execSync (shell h) cmd of
               Inl e \<Rightarrow> Some (comments, [Exec cmd], Some e)
             | Inr prettierCheck \<Rightarrow>
                 (let hasWarnings = includes_str prettierCheck ''Run Prettier to fix'' in
                  (case (if \<not> hasWarnings then Inr main_passed_body
                         else (case fs h ''prettier_output.txt'' of
                                 None \<Rightarrow> Inl (ENOENT ''prettier_output.txt'')
                               | Some PRETTIER_OUTPUT \<Rightarrow> Inr (main_failed_body PRETTIER_OUTPUT))) of
                     Inl e \<Rightarrow> Some (comments, [Exec cmd], Some e)
                   | Inr newBody \<Rightarrow>
                       (let (comments', written) = upsert newBody comments in
                        if hasWarnings
                        then Some (comments', [Exec cmd] @ written,
                                   Some (ReferenceError ''core''))
                        else Some (comments',
                                   [Exec cmd] @ written @ [ConsoleLog ''Prettier check passed''],
                                   None))))))"

section \<open>Observations and concrete inputs\<close>

text \<open>A pull request file list of 150 modified files, spanning two pages of size 100.\<close>

definition files150 :: "changed_file list" where
  "files150 = map (\<lambda>i. \<lparr>filename = replicate i (CHR ''a'') @ ''.ts'', status = ''modified''\<rparr>) [0..<150]"

text \<open>
  The shape of the tool's diagnostics: a warning line per offending file, then one line
  that names no file (the summary), the lines separated by line feeds.
\<close>

definition warn_line :: "string \<Rightarrow> string" where
  "warn_line f = ''[warn] '' @ f"

definition diagnostic :: "string list \<Rightarrow> string \<Rightarrow> string" where
  "diagnostic ns foot = join [LF] (map warn_line ns @ [foot])"

text \<open>The summary line the tool prints after two warnings.\<close>

definition summary_line :: string where
  "summary_line = ''[warn] Code style issues found in 2 files. Run Prettier with --write to fix.''"


text \<open>
  Three pull requests. The first has a TypeScript file, an image and a removed file, and
  the tool finds the TypeScript file unformatted; the second is the same with a tool that
  finds nothing; in the third every file is filtered out, one by its extension and one by
  the ignore file.
\<close>

definition example_files :: "changed_file list" where
  "example_files =
     [\<lparr>filename = ''a.ts'', status = ''modified''\<rparr>,
      \<lparr>filename = ''b.png'', status = ''added''\<rparr>,
      \<lparr>filename = ''old.md'', status = ''removed''\<rparr>]"

definition violations :: process where
  "violations =
     \<lparr>exit_code = 1,
      proc_stdout = ''Checking formatting...'' @ [LF],
      proc_stderr = ''[warn] a.ts'' @ [LF] @
        ''[warn] Code style issues found in the above file. Run Prettier with --write to fix.'' @
        [LF]\<rparr>"

definition clean :: process where
  "clean =
     \<lparr>exit_code = 0,
      proc_stdout = ''Checking formatting...'' @ [LF] @
        ''All matched files use Prettier code style!'' @ [LF],
      proc_stderr = []\<rparr>"

definition failing_host :: host where
  "failing_host =
     \<lparr>listFiles = github_listFiles example_files, prettierIgnore = [],
      fs = (\<lambda>path. None), ignores = (\<lambda>content f. False), shell = (\<lambda>cmd. violations)\<rparr>"

definition passing_host :: host where
  "passing_host =
     \<lparr>listFiles = github_listFiles example_files, prettierIgnore = [],
      fs = (\<lambda>path. None), ignores = (\<lambda>content f. False), shell = (\<lambda>cmd. clean)\<rparr>"

definition idle_host :: host where
  "idle_host =
     \<lparr>listFiles = github_listFiles
        [\<lparr>filename = ''b.png'', status = ''added''\<rparr>,
         \<lparr>filename = ''dist/index.js'', status = ''modified''\<rparr>],
      prettierIgnore = ''.prettierignore'',
      fs = (\<lambda>path. if path = ''.prettierignore'' then Some ''dist/'' else None),
      ignores = (\<lambda>content f. prefix content f),
      shell = (\<lambda>cmd. violations)\<rparr>"

text \<open>An earlier marker comment between two comments of users.\<close>

definition example_comments :: "comment list" where
  "example_comments =
     [\<lparr>comment_id = 11, body = ''LGTM''\<rparr>,
      \<lparr>comment_id = 12, body = commentIdentifier @ [LF] @ ''an earlier report''\<rparr>,
      \<lparr>comment_id = 15, body = ''thanks''\<rparr>]"

text \<open>
  The words into which a shell splits a command line that has no quoting and no other
  special character: its maximal runs of characters other than the space.
\<close>

definition argv :: "string \<Rightarrow> string list" where
  "argv cmd = filter (\<lambda>w. w \<noteq> []) (split_on (CHR '' '') cmd)"

text \<open>A pull request whose one changed file has a space in its name.\<close>

definition spaced_host :: host where
  "spaced_host =
     \<lparr>listFiles = github_listFiles [\<lparr>filename = ''my file.ts'', status = ''added''\<rparr>],
      prettierIgnore = [], fs = (\<lambda>path. None), ignores = (\<lambda>content f. False),
      shell = (\<lambda>cmd. violations)\<rparr>"



text \<open>
  Thirty comments of users, which fill the first page of the comment listing, and the same
  followed by a marker comment, which is then on the second page.
\<close>

definition thirty_comments :: "comment list" where
  "thirty_comments = map (\<lambda>i. \<lparr>comment_id = i, body = ''note''\<rparr>) [1..<31]"

definition off_page_comments :: "comment list" where
  "off_page_comments =
     thirty_comments @ [\<lparr>comment_id = 31, body = commentIdentifier @ [LF] @ ''an earlier report''\<rparr>]"

text \<open>
  A pull request whose one changed file is \<open>a.ts\<close>, with a tool that finds it unformatted
  and with a tool that finds nothing.
\<close>

definition violating_host :: host where
  "violating_host =
     \<lparr>listFiles = github_listFiles [\<lparr>filename = ''a.ts'', status = ''modified''\<rparr>],
      prettierIgnore = [], fs = (\<lambda>path. None), ignores = (\<lambda>content f. False),
      shell = (\<lambda>cmd. violations)\<rparr>"

definition conforming_host :: host where
  "conforming_host =
     \<lparr>listFiles = github_listFiles [\<lparr>filename = ''a.ts'', status = ''modified''\<rparr>],
      prettierIgnore = [], fs = (\<lambda>path. None), ignores = (\<lambda>content f. False),
      shell = (\<lambda>cmd. clean)\<rparr>"

text \<open>The failure comment of the complete variant for the diagnostics of \<open>violations\<close>.\<close>

definition violations_report :: string where
  "violations_report =
     commentIdentifier @ [LF] @ police_light @
     '' Prettier check failed for the following files:'' @ [LF, LF] @
     ''```'' @ [LF] @
     ''[warn] a.ts'' @ [LF] @
     ''[warn] Code style issues found in the above file. Run Prettier with --write to fix.'' @
     [LF] @ ''```'' @ [LF, LF] @
     ''To fix the issue, run the following command:'' @ [LF, LF] @
     ''```'' @ [LF] @ ''npx prettier --write '' @ [CHR 0x22] @ ''a.ts'' @ [CHR 0x22] @ [LF] @
     ''```''"





section \<open>Pagination\<close>

lemma loop_pages:
  "(\<forall>i<k. api 100 (p + i) \<noteq> []) \<Longrightarrow> api 100 (p + k) = [] \<Longrightarrow>
   getAllChangedFiles_loop api acc p =
     Some (acc @ map filename (filter (\<lambda>f. status f \<noteq> ''removed'')
                                (concat (map (api 100) [p..<p + k]))), p + k)"
proof (induction k arbitrary: acc p)
  case 0
  then show ?case by (subst getAllChangedFiles_loop.simps) simp
next
  case (Suc k)
  from Suc.prems(1) have ne: "api 100 p \<noteq> []" by (metis add.right_neutral zero_less_Suc)
  have step: "\<forall>i<k. api 100 (Suc p + i) \<noteq> []"
    using Suc.prems(1) by (metis Suc_less_eq add_Suc_shift)
  have stop: "api 100 (Suc p + k) = []" using Suc.prems(2) by simp
  have "getAllChangedFiles_loop api acc p =
        getAllChangedFiles_loop api
          (acc @ map filename (filter (\<lambda>f. status f \<noteq> ''removed'') (api 100 p))) (Suc p)"
    using ne by (subst getAllChangedFiles_loop.simps) simp
  moreover have "getAllChangedFiles_loop api
          (acc @ map filename (filter (\<lambda>f. status f \<noteq> ''removed'') (api 100 p))) (Suc p) = Some ((acc @ map filename (filter (\<lambda>f. status f \<noteq> ''removed'') (api 100 p))) @
       map filename (filter (\<lambda>f. status f \<noteq> ''removed'') (concat (map (api 100) [Suc p..<Suc p + k]))), Suc p + k)"
    by (rule Suc.IH [OF step stop])
  moreover have "[p..<p + Suc k] = p # [Suc p..<Suc p + k]"
    by (simp add: upt_conv_Cons)
  ultimately show ?case by simp
qed

lemma concat_pages:
  "0 < n \<Longrightarrow> concat (map (github_listFiles files n) [1..<Suc k]) = take (k * n) files"
proof (induction k)
  case 0
  then show ?case by simp
next
  case (Suc k)
  have "take (k * n) files @ take n (drop (k * n) files) = take (k * n + n) files"
    by (simp add: take_add)
  with Suc show ?case by (simp add: github_listFiles_def add.commute)
qed

lemma github_page_nonempty:
  "1 \<le> p \<Longrightarrow> p \<le> (length files + 99) div 100 \<Longrightarrow> github_listFiles files 100 p \<noteq> []"
proof -
  assume "1 \<le> p" and "p \<le> (length files + 99) div 100"
  then have "(p - 1) * 100 < length files" by arith
  then show ?thesis by (simp add: github_listFiles_def)
qed

lemma github_page_empty:
  "github_listFiles files 100 (Suc ((length files + 99) div 100)) = []"
proof -
  have "length files \<le> ((length files + 99) div 100) * 100" by arith
  then show ?thesis by (simp add: github_listFiles_def)
qed

lemma github_all_pages:
  "concat (map (github_listFiles files 100) [1..<Suc ((length files + 99) div 100)]) = files"
proof -
  let ?k = "(length files + 99) div 100"
  have "length files \<le> ?k * 100" by arith
  moreover have "concat (map (github_listFiles files 100) [1..<Suc ?k]) = take (?k * 100) files"
    by (rule concat_pages) simp
  ultimately show ?thesis by (simp only: take_all)
qed

lemma collect_all:
  "getAllChangedFiles_loop (github_listFiles files) [] 1 =
     Some (map filename (filter (\<lambda>f. status f \<noteq> ''removed'') files), Suc ((length files + 99) div 100))"
proof -
  let ?k = "(length files + 99) div 100"
  have a: "\<forall>i<?k. github_listFiles files 100 (1 + i) \<noteq> []"
    by (simp add: github_page_nonempty)
  have b: "github_listFiles files 100 (1 + ?k) = []"
    using github_page_empty [of files] by simp
  have "getAllChangedFiles_loop (github_listFiles files) [] 1 =
     Some ([] @ map filename (filter (\<lambda>f. status f \<noteq> ''removed'')
                (concat (map (github_listFiles files 100) [1..<1 + ?k]))), 1 + ?k)"
    using a b by (rule loop_pages)
  then show ?thesis
    using github_all_pages [of files] by simp
qed


text \<open>
  Claim C7. The collector asks for pages of size 100 from page 1 on, ends at the first
  empty page, and returns the filenames of the pages in order: for an endpoint serving a
  file list page by page the result is the whole list (less the removed entries, which are
  dropped page by page), in the order of the list, and the loop ends at the page after the
  last non-empty one; for any endpoint whose pages 1 to \<open>k\<close> are non-empty and whose page
  \<open>k + 1\<close> is empty, the result is the concatenation of the pages 1 to \<open>k\<close>.
\<close>

theorem collector_pagination:
  "getAllChangedFiles_loop (github_listFiles files) [] 1 =
     Some (map filename (filter (\<lambda>f. status f \<noteq> ''removed'') files),
           Suc ((length files + 99) div 100))
   \<and> getAllChangedFiles (github_listFiles files) =
       Some (map filename (filter (\<lambda>f. status f \<noteq> ''removed'') files))
   \<and> ((\<forall>p. 1 \<le> p \<and> p \<le> k \<longrightarrow> api 100 p \<noteq> []) \<and> api 100 (Suc k) = [] \<longrightarrow>
        getAllChangedFiles_loop api [] 1 =
          Some (map filename (filter (\<lambda>f. status f \<noteq> ''removed'')
                                (concat (map (api 100) [1..<Suc k]))), Suc k))"
proof (intro conjI impI)
  show "getAllChangedFiles_loop (github_listFiles files) [] 1 =
     Some (map filename (filter (\<lambda>f. status f \<noteq> ''removed'') files),
           Suc ((length files + 99) div 100))"
    by (rule collect_all)
next
  show "getAllChangedFiles (github_listFiles files) =
       Some (map filename (filter (\<lambda>f. status f \<noteq> ''removed'') files))"
    unfolding getAllChangedFiles_def collect_all by simp
next
  assume h: "(\<forall>p. 1 \<le> p \<and> p \<le> k \<longrightarrow> api 100 p \<noteq> []) \<and> api 100 (Suc k) = []"
  then have a: "\<forall>i<k. api 100 (1 + i) \<noteq> []" by simp
  from h have b: "api 100 (1 + k) = []" by simp
  have "getAllChangedFiles_loop api [] 1 =
     Some ([] @ map filename (filter (\<lambda>f. status f \<noteq> ''removed'')
                (concat (map (api 100) [1..<1 + k]))), 1 + k)"
    using a b by (rule loop_pages)
  then show "getAllChangedFiles_loop api [] 1 =
          Some (map filename (filter (\<lambda>f. status f \<noteq> ''removed'')
                                (concat (map (api 100) [1..<Suc k]))), Suc k)"
    by simp
qed

theorem collector_pagination_witness:
  "length files150 = 150
   \<and> github_listFiles files150 100 1 \<noteq> [] \<and> github_listFiles files150 100 2 \<noteq> []
   \<and> github_listFiles files150 100 3 = []
   \<and> getAllChangedFiles_loop (github_listFiles files150) [] 1 = Some (map filename files150, 3)"
proof -
  have len: "length files150 = 150" by (simp add: files150_def)
  have p1: "github_listFiles files150 100 1 \<noteq> []"
    and p2: "github_listFiles files150 100 2 \<noteq> []"
    and p3: "github_listFiles files150 100 3 = []"
    using len by (auto simp add: github_listFiles_def)
  have pages: "\<forall>p. 1 \<le> p \<and> p \<le> 2 \<longrightarrow> github_listFiles files150 100 p \<noteq> []"
  proof (intro allI impI)
    fix p :: nat assume "1 \<le> p \<and> p \<le> 2"
    then have "p = 1 \<or> p = 2" by arith
    then show "github_listFiles files150 100 p \<noteq> []" using p1 p2 by auto
  qed
  have keep: "filter (\<lambda>f. status f \<noteq> ''removed'') files150 = files150"
    by (simp add: files150_def filter_map comp_def)
  have "concat (map (github_listFiles files150 100) [1..<Suc 2]) = files150"
    using github_all_pages [of files150] by (simp add: len)
  with collector_pagination [of files150 2 "github_listFiles files150"] pages p3 keep
  show ?thesis by (simp add: len p1 p2 numeral_3_eq_3)
qed

section \<open>The remediation command\<close>





lemma join_nonempty: "ls \<noteq> [] \<Longrightarrow> last ls \<noteq> [] \<Longrightarrow> join sep ls \<noteq> []"
  by (induction sep ls rule: join.induct) simp_all

lemma hd_join: "ls \<noteq> [] \<Longrightarrow> hd ls \<noteq> [] \<Longrightarrow> hd (join sep ls) = hd (hd ls)"
  by (induction sep ls rule: join.induct) simp_all

lemma last_join: "ls \<noteq> [] \<Longrightarrow> last ls \<noteq> [] \<Longrightarrow> last (join sep ls) = last (last ls)"
proof (induction sep ls rule: join.induct)
  case (3 sep x y ys)
  then have "join sep (y # ys) \<noteq> []" by (simp add: join_nonempty)
  with 3 show ?case by simp
qed simp_all


subsection \<open>Trimming\<close>





















subsection \<open>Quoting\<close>









section \<open>The marker comment\<close>








lemma updateComment_length: "length (updateComment i b cs) = length cs"
  by (simp add: updateComment_def)

lemma updateComment_nth:
  assumes "distinct (map comment_id cs)" and "i < length cs"
  shows "updateComment (comment_id (cs ! i)) b cs = cs[i := (cs ! i)\<lparr>body := b\<rparr>]"
proof (rule nth_equalityI)
  show "length (updateComment (comment_id (cs ! i)) b cs) = length (cs[i := (cs ! i)\<lparr>body := b\<rparr>])"
    by (simp add: updateComment_length)
next
  fix j assume "j < length (updateComment (comment_id (cs ! i)) b cs)"
  then have j: "j < length cs" by (simp add: updateComment_length)
  have "comment_id (cs ! j) = comment_id (cs ! i) \<longleftrightarrow> j = i"
    using assms j nth_eq_iff_index_eq [of "map comment_id cs" j i] by simp
  then show "updateComment (comment_id (cs ! i)) b cs ! j = cs[i := (cs ! i)\<lparr>body := b\<rparr>] ! j"
    using j by (auto simp add: updateComment_def)
qed


lemma find_first:
  "find P xs = Some x \<longleftrightarrow> (\<exists>i<length xs. P (xs ! i) \<and> x = xs ! i \<and> (\<forall>j<i. \<not> P (xs ! j)))"
  by (rule find_Some_iff)




lemma find_on_page:
  "find is_marker (listComments cs) = Some c \<longleftrightarrow>
     (\<exists>i. i < length cs \<and> i < 30 \<and> is_marker (cs ! i) \<and> c = cs ! i \<and> (\<forall>j<i. \<not> is_marker (cs ! j)))"
  by (auto simp add: find_Some_iff listComments_def)







lemma upsert_written:
  "\<exists>w. snd (upsert b cs) = [w] \<and> (w = CreateComment b \<or> (\<exists>i. w = UpdateComment i b))"
  by (simp add: upsert_def split: option.splits)

lemma upsert_has_body: "\<exists>c\<in>set (fst (upsert b cs)). body c = b"
proof (cases "find is_marker (listComments cs)")
  case None
  then show ?thesis by (simp add: upsert_def createComment_def)
next
  case (Some c)
  then have "c \<in> set cs" by (auto simp add: find_on_page)
  then have "c\<lparr>body := b\<rparr> \<in> set (updateComment (comment_id c) b cs)"
    by (force simp add: updateComment_def)
  moreover have "body (c\<lparr>body := b\<rparr>) = b" by simp
  ultimately have "\<exists>c'\<in>set (updateComment (comment_id c) b cs). body c' = b" by blast
  then show ?thesis using Some by (simp add: upsert_def)
qed

subsection \<open>The two branches of the run\<close>

lemma runExec_zero:
  "exit_code (sh cmd) = 0 \<Longrightarrow>
   runExec sh cmd = \<lparr>err = None, stdout = proc_stdout (sh cmd), stderr = proc_stderr (sh cmd)\<rparr>"
  by (simp add: runExec_def exec_def Let_def)

lemma runExec_nonzero:
  "exit_code (sh cmd) \<noteq> 0 \<Longrightarrow>
   runExec sh cmd =
     \<lparr>err = Some \<lparr>code = exit_code (sh cmd), error_stdout = proc_stdout (sh cmd),
                   error_stderr = proc_stderr (sh cmd)\<rparr>,
      stdout = [], stderr = proc_stderr (sh cmd)\<rparr>"
  by (simp add: runExec_def exec_def Let_def)

lemma runExec_err: "err (runExec sh cmd) = None \<longleftrightarrow> exit_code (sh cmd) = 0"
  by (simp add: runExec_def exec_def Let_def)

lemma runExec_err_Some: "(\<exists>e. err (runExec sh cmd) = Some e) \<longleftrightarrow> exit_code (sh cmd) \<noteq> 0"
  using runExec_err [of sh cmd] by (simp only: not_None_eq [symmetric])

lemma runExec_stderr: "stderr (runExec sh cmd) = proc_stderr (sh cmd)"
  by (simp add: runExec_def exec_def Let_def)

lemma run_empty_change_set:
  "getAllChangedFiles (listFiles h) = Some allFiles \<Longrightarrow> filterChangedFiles h allFiles = [] \<Longrightarrow>
   run h cs = Some (updateOnly passed_body cs)"
  by (simp add: run_def)

lemma run_nonempty_change_set:
  assumes "getAllChangedFiles (listFiles h) = Some allFiles"
    and "filterChangedFiles h allFiles \<noteq> []"
  shows "run h cs =
     Some (fst (upsert (if exit_code (shell h (checkCommand (filterChangedFiles h allFiles))) = 0
                        then passed_body
                        else failed_body
                          (trim (proc_stderr (shell h (checkCommand (filterChangedFiles h allFiles))))))
                 cs),
           [Exec (checkCommand (filterChangedFiles h allFiles))] @
           snd (upsert (if exit_code (shell h (checkCommand (filterChangedFiles h allFiles))) = 0
                        then passed_body
                        else failed_body
                          (trim (proc_stderr (shell h (checkCommand (filterChangedFiles h allFiles))))))
                 cs) @
           (if exit_code (shell h (checkCommand (filterChangedFiles h allFiles))) \<noteq> 0
            then [SetFailed ''Prettier check failed'', SetOutput ''exitCode'' 1]
            else [ConsoleLog ''Prettier check passed'', SetOutput ''exitCode'' 0]))"
  using assms
  by (simp add: run_def Let_def runExec_err runExec_err_Some runExec_stderr split_beta)

section \<open>The minimal variant\<close>

text \<open>
  The minimal variant collects the pages in the same way but keeps the removed entries, and
  its empty branch is that of the action.
\<close>

lemma main_loop_pages:
  "(\<forall>i<k. api 100 (p + i) \<noteq> []) \<Longrightarrow> api 100 (p + k) = [] \<Longrightarrow>
   main_getAllChangedFiles_loop api acc p =
     Some (acc @ map filename (concat (map (api 100) [p..<p + k])), p + k)"
proof (induction k arbitrary: acc p)
  case 0
  then show ?case by (subst main_getAllChangedFiles_loop.simps) simp
next
  case (Suc k)
  from Suc.prems(1) have ne: "api 100 p \<noteq> []" by (metis add.right_neutral zero_less_Suc)
  have more: "\<forall>i<k. api 100 (Suc p + i) \<noteq> []"
    using Suc.prems(1) by (metis Suc_less_eq add_Suc_shift)
  have stop: "api 100 (Suc p + k) = []" using Suc.prems(2) by simp
  have "main_getAllChangedFiles_loop api acc p =
        main_getAllChangedFiles_loop api (acc @ map filename (api 100 p)) (Suc p)"
    using ne by (subst main_getAllChangedFiles_loop.simps) simp
  moreover have "main_getAllChangedFiles_loop api (acc @ map filename (api 100 p)) (Suc p) =
      Some ((acc @ map filename (api 100 p)) @
            map filename (concat (map (api 100) [Suc p..<Suc p + k])), Suc p + k)"
    by (rule Suc.IH [OF more stop])
  moreover have "[p..<p + Suc k] = p # [Suc p..<Suc p + k]"
    by (simp add: upt_conv_Cons)
  ultimately show ?case by simp
qed

lemma main_getAllChangedFiles_github:
  "main_getAllChangedFiles (github_listFiles files) = Some (map filename files)"
proof -
  let ?k = "(length files + 99) div 100"
  have a: "\<forall>i<?k. github_listFiles files 100 (1 + i) \<noteq> []"
    by (simp add: github_page_nonempty)
  have b: "github_listFiles files 100 (1 + ?k) = []"
    using github_page_empty [of files] by simp
  have "main_getAllChangedFiles_loop (github_listFiles files) [] 1 =
     Some ([] @ map filename (concat (map (github_listFiles files 100) [1..<1 + ?k])), 1 + ?k)"
    using a b by (rule main_loop_pages)
  then show ?thesis
    using github_all_pages [of files] by (simp add: main_getAllChangedFiles_def)
qed

lemma main_body_eq: "main_body = passed_body"
  by (simp add: main_body_def passed_body_def)

lemma main_run_empty_change_set:
  "main_getAllChangedFiles (listFiles h) = Some allFiles \<Longrightarrow>
   filter (ext_test main_allowed_extensions) allFiles = [] \<Longrightarrow>
   main_run h cs = Some (fst (updateOnly passed_body cs), snd (updateOnly passed_body cs), None)"
  by (simp add: main_run_def main_body_eq split_beta)

lemma main_run_nonzero_exit:
  "main_getAllChangedFiles (listFiles h) = Some allFiles \<Longrightarrow>
   filter (ext_test main_allowed_extensions) allFiles \<noteq> [] \<Longrightarrow>
   exit_code (shell h (checkCommand (filter (ext_test main_allowed_extensions) allFiles))) \<noteq> 0 \<Longrightarrow>
   main_run h cs =
     Some (cs, [Exec (checkCommand (filter (ext_test main_allowed_extensions) allFiles))],
           Some (ExecSyncError
             (exit_code (shell h (checkCommand (filter (ext_test main_allowed_extensions) allFiles))))))"
  by (simp add: main_run_def execSync_def Let_def)

text \<open>
  On the first example the command of the minimal variant names the removed file, and the
  non-zero exit of the tool aborts the run before any comment is written.
\<close>

lemma main_run_aborts_on_violations:
  "main_run failing_host [] =
     Some ([], [Exec ''npx prettier --check a.ts old.md''], Some (ExecSyncError 1))"
  by code_simp

text \<open>
  Its remediation command drops the first and the last line of the diagnostics and does
  not quote the names.
\<close>

lemma main_prettierCommand_unquoted:
  "main_prettierCommand (''[warn] a.ts'' @ [LF] @ ''[warn] my file.ts'' @ [LF] @ summary_line) =
     ''npx prettier --write my file.ts''"
  by code_simp

text \<open>No path of the minimal variant sets an output or calls \<open>setFailed\<close>.\<close>

lemma main_run_no_outcome:
  assumes "main_run h cs = Some (cs', es, e)"
  shows "(\<forall>n v. SetOutput n v \<notin> set es) \<and> (\<forall>m. SetFailed m \<notin> set es)"
proof -
  have u: "\<And>b. (\<forall>n v. SetOutput n v \<notin> set (snd (upsert b cs)))
             \<and> (\<forall>m. SetFailed m \<notin> set (snd (upsert b cs)))"
    by (simp add: upsert_def split: option.splits)
  have v: "\<And>b. (\<forall>n v. SetOutput n v \<notin> set (snd (updateOnly b cs)))
             \<and> (\<forall>m. SetFailed m \<notin> set (snd (updateOnly b cs)))"
    by (simp add: updateOnly_def split: option.splits)
  show ?thesis
    using assms u v
    by (auto simp add: main_run_def Let_def split_beta
             split: option.splits if_splits sum.splits)
qed



section \<open>The empty change set\<close>

lemma failing_host_files:
  "getAllChangedFiles (listFiles failing_host) = Some [''a.ts'', ''b.png'']"
  by code_simp

lemma failing_host_filtered: "filterChangedFiles failing_host [''a.ts'', ''b.png''] = [''a.ts'']"
  by code_simp

lemma idle_host_files:
  "getAllChangedFiles (listFiles idle_host) = Some [''b.png'', ''dist/index.js'']"
  by code_simp

lemma idle_host_filtered: "filterChangedFiles idle_host [''b.png'', ''dist/index.js''] = []"
  by code_simp

lemma example_comments_distinct: "distinct (map comment_id example_comments)"
  by code_simp

lemma example_comments_first_marker:
  "is_marker (example_comments ! 1) \<and> (\<forall>j<1. \<not> is_marker (example_comments ! j))"
proof -
  have "is_marker (example_comments ! 1)" by code_simp
  moreover have "\<not> is_marker (example_comments ! 0)" by code_simp
  ultimately show ?thesis by simp
qed

lemma updateOnly_none:
  "\<forall>c\<in>set (listComments cs). \<not> is_marker c \<Longrightarrow> updateOnly b cs = (cs, [])"
proof -
  assume "\<forall>c\<in>set (listComments cs). \<not> is_marker c"
  then have "find is_marker (listComments cs) = None" by (simp add: find_None_iff)
  then show ?thesis by (simp add: updateOnly_def)
qed

lemma updateOnly_first:
  assumes "distinct (map comment_id cs)" and "i < length cs" and "i < 30"
    and "is_marker (cs ! i)" and "\<forall>j<i. \<not> is_marker (cs ! j)"
  shows "updateOnly b cs = (cs[i := (cs ! i)\<lparr>body := b\<rparr>], [UpdateComment (comment_id (cs ! i)) b])"
proof -
  have "find is_marker (listComments cs) = Some (cs ! i)"
    unfolding find_on_page using assms(2,3,4,5) by blast
  then show ?thesis
    using assms(1,2) by (simp add: updateOnly_def updateComment_nth)
qed

text \<open>
  Claim C4, amended. When the filtered change set is empty, the run only updates. It reads
  one page of the comment listing, the first 30 comments. With no marker comment on that
  page the comments are left as they are and nothing is written; otherwise the body of the
  first marker comment on it is replaced by the pass message, the other comments are left
  as they are, and no comment is created.
\<close>

theorem empty_change_set_updates_only:
  assumes "getAllChangedFiles (listFiles h) = Some allFiles"
    and "filterChangedFiles h allFiles = []"
    and "distinct (map comment_id comments)"
  shows "((\<forall>c\<in>set (listComments comments). \<not> is_marker c) \<longrightarrow>
            run h comments = Some (comments, []))
       \<and> (\<forall>i<length comments.
            i < 30 \<and> is_marker (comments ! i) \<and> (\<forall>j<i. \<not> is_marker (comments ! j)) \<longrightarrow>
            run h comments =
              Some (comments[i := (comments ! i)\<lparr>body := passed_body\<rparr>],
                    [UpdateComment (comment_id (comments ! i)) passed_body]))"
proof -
  have r: "run h comments = Some (updateOnly passed_body comments)"
    using assms(1,2) by (rule run_empty_change_set)
  show ?thesis
    unfolding r using assms(3) by (auto simp add: updateOnly_none updateOnly_first)
qed

theorem empty_change_set_updates_only_witness:
  "run idle_host example_comments =
     Some ([\<lparr>comment_id = 11, body = ''LGTM''\<rparr>,
            \<lparr>comment_id = 12, body = passed_body\<rparr>,
            \<lparr>comment_id = 15, body = ''thanks''\<rparr>],
           [UpdateComment 12 passed_body])
   \<and> run idle_host [] = Some ([], [])"
proof -
  have one: "1 < length example_comments" by (simp add: example_comments_def)
  have "run idle_host example_comments =
      Some (example_comments[1 := (example_comments ! 1)\<lparr>body := passed_body\<rparr>],
            [UpdateComment (comment_id (example_comments ! 1)) passed_body])"
    using empty_change_set_updates_only
            [OF idle_host_files idle_host_filtered example_comments_distinct]
          one example_comments_first_marker by simp
  moreover have "run idle_host [] = Some ([], [])"
    using empty_change_set_updates_only [OF idle_host_files idle_host_filtered, of "[]"]
    by (simp add: listComments_def)
  ultimately show ?thesis by (simp add: example_comments_def)
qed

text \<open>
  Claim C4 as stated fails when the marker comment is not on the first page of the comment
  listing: after thirty other comments it is not found, and its body is left as it was.
\<close>

theorem empty_change_set_updates_only_counterexample:
  "is_marker (off_page_comments ! 30)
   \<and> body (off_page_comments ! 30) \<noteq> passed_body
   \<and> run idle_host off_page_comments = Some (off_page_comments, [])"
  by code_simp

lemma filterChangedFiles_empty:
  "filterChangedFiles h allFiles = [] \<longleftrightarrow>
     (\<forall>f\<in>set allFiles. \<not> ext_test allowed_extensions f \<or>
        (\<exists>content. fs h (prettierIgnore h) = Some content \<and> ignores h content f))"
  by (cases "fs h (prettierIgnore h)")
     (auto simp add: filterChangedFiles_def Let_def filter_empty_conv)

lemma updateOnly_effects:
  "snd (updateOnly b cs) = [] \<or> (\<exists>i. snd (updateOnly b cs) = [UpdateComment i b])"
  by (simp add: updateOnly_def split: option.splits)

text \<open>
  Claim C6. When every collected file is filtered out, by its extension or by the ignore
  rules, the run executes no command, and its outcome is a pass: nothing is marked failed,
  and the only thing it may write is the pass message.
\<close>

theorem all_filtered_out_no_check:
  assumes "getAllChangedFiles (listFiles h) = Some allFiles"
    and "\<forall>f\<in>set allFiles. \<not> ext_test allowed_extensions f \<or>
           (\<exists>content. fs h (prettierIgnore h) = Some content \<and> ignores h content f)"
  shows "\<exists>comments' es. run h comments = Some (comments', es)
           \<and> (\<forall>cmd. Exec cmd \<notin> set es) \<and> (\<forall>m. SetFailed m \<notin> set es)
           \<and> (\<forall>e\<in>set es. \<exists>i. e = UpdateComment i passed_body)"
proof -
  have "filterChangedFiles h allFiles = []"
    using assms(2) by (simp only: filterChangedFiles_empty)
  with assms(1) have r: "run h comments = Some (updateOnly passed_body comments)"
    by (rule run_empty_change_set)
  have "run h comments =
      Some (fst (updateOnly passed_body comments), snd (updateOnly passed_body comments))"
    by (simp add: r)
  moreover have "(\<forall>cmd. Exec cmd \<notin> set (snd (updateOnly passed_body comments)))
      \<and> (\<forall>m. SetFailed m \<notin> set (snd (updateOnly passed_body comments)))
      \<and> (\<forall>e\<in>set (snd (updateOnly passed_body comments)). \<exists>i. e = UpdateComment i passed_body)"
    using updateOnly_effects [of passed_body comments] by auto
  ultimately show ?thesis by blast
qed

theorem all_filtered_out_no_check_witness:
  "\<not> ext_test allowed_extensions ''b.png''
   \<and> fs idle_host (prettierIgnore idle_host) = Some ''dist/''
   \<and> ignores idle_host ''dist/'' ''dist/index.js''
   \<and> (\<exists>comments' es. run idle_host example_comments = Some (comments', es)
           \<and> (\<forall>cmd. Exec cmd \<notin> set es) \<and> (\<forall>m. SetFailed m \<notin> set es)
           \<and> (\<forall>e\<in>set es. \<exists>i. e = UpdateComment i passed_body))"
proof -
  have a: "\<not> ext_test allowed_extensions ''b.png''" by code_simp
  have b: "fs idle_host (prettierIgnore idle_host) = Some ''dist/''"
    by (simp add: idle_host_def)
  have c: "ignores idle_host ''dist/'' ''dist/index.js''"
    by (simp add: idle_host_def)
  have "\<forall>f\<in>set [''b.png'', ''dist/index.js''].
          \<not> ext_test allowed_extensions f \<or>
          (\<exists>content. fs idle_host (prettierIgnore idle_host) = Some content
                      \<and> ignores idle_host content f)"
    using a b c by simp
  with idle_host_files
  have "\<exists>comments' es. run idle_host example_comments = Some (comments', es)
           \<and> (\<forall>cmd. Exec cmd \<notin> set es) \<and> (\<forall>m. SetFailed m \<notin> set es)
           \<and> (\<forall>e\<in>set es. \<exists>i. e = UpdateComment i passed_body)"
    by (rule all_filtered_out_no_check)
  with a b c show ?thesis by simp
qed

text \<open>
  Claim C10. When the filtered change set is empty, the run sets no output, signals no
  failure and logs no line; the \<open>exitCode\<close> output is set, to 0 or to 1, exactly when the
  filtered change set is not empty.
\<close>

theorem empty_change_set_no_outcome_signal:
  assumes "getAllChangedFiles (listFiles h) = Some allFiles"
  shows "\<exists>comments' es. run h comments = Some (comments', es)
           \<and> (filterChangedFiles h allFiles = [] \<longrightarrow>
                 (\<forall>n v. SetOutput n v \<notin> set es) \<and> (\<forall>m. SetFailed m \<notin> set es)
                 \<and> (\<forall>l. ConsoleLog l \<notin> set es))
           \<and> (filterChangedFiles h allFiles \<noteq> [] \<longrightarrow>
                 SetOutput ''exitCode'' 0 \<in> set es \<or> SetOutput ''exitCode'' 1 \<in> set es)"
proof (cases "filterChangedFiles h allFiles = []")
  case True
  with assms have r: "run h comments = Some (updateOnly passed_body comments)"
    by (rule run_empty_change_set)
  have "run h comments =
      Some (fst (updateOnly passed_body comments), snd (updateOnly passed_body comments))"
    by (simp add: r)
  moreover have "(\<forall>n v. SetOutput n v \<notin> set (snd (updateOnly passed_body comments)))
      \<and> (\<forall>m. SetFailed m \<notin> set (snd (updateOnly passed_body comments)))
      \<and> (\<forall>l. ConsoleLog l \<notin> set (snd (updateOnly passed_body comments)))"
    using updateOnly_effects [of passed_body comments] by auto
  ultimately show ?thesis using True by blast
next
  case False
  show ?thesis
    unfolding run_nonempty_change_set [OF assms False] using False by simp
qed

theorem empty_change_set_no_outcome_signal_witness:
  "filterChangedFiles idle_host [''b.png'', ''dist/index.js''] = []
   \<and> (\<exists>comments' es. run idle_host example_comments = Some (comments', es)
          \<and> (\<forall>n v. SetOutput n v \<notin> set es) \<and> (\<forall>m. SetFailed m \<notin> set es)
          \<and> (\<forall>l. ConsoleLog l \<notin> set es))
   \<and> filterChangedFiles failing_host [''a.ts'', ''b.png''] = [''a.ts'']
   \<and> (\<exists>comments' es. run failing_host example_comments = Some (comments', es)
          \<and> (SetOutput ''exitCode'' 0 \<in> set es \<or> SetOutput ''exitCode'' 1 \<in> set es))"
proof -
  have "\<exists>comments' es. run idle_host example_comments = Some (comments', es)
          \<and> (\<forall>n v. SetOutput n v \<notin> set es) \<and> (\<forall>m. SetFailed m \<notin> set es)
          \<and> (\<forall>l. ConsoleLog l \<notin> set es)"
    using empty_change_set_no_outcome_signal [OF idle_host_files, of example_comments]
          idle_host_filtered
    by simp
  moreover have "\<exists>comments' es. run failing_host example_comments = Some (comments', es)
          \<and> (SetOutput ''exitCode'' 0 \<in> set es \<or> SetOutput ''exitCode'' 1 \<in> set es)"
    using empty_change_set_no_outcome_signal [OF failing_host_files, of example_comments]
          failing_host_filtered
    by simp
  ultimately show ?thesis
    using idle_host_filtered failing_host_filtered by blast
qed

section \<open>The non-empty change set\<close>



text \<open>
  The complete variant, with a non-empty change set: when the tool's invocation reports a
  failure the run calls \<open>setFailed\<close> and sets the output \<open>exitCode\<close> to 1, and otherwise it
  logs the success line and sets \<open>exitCode\<close> to 0; these calls follow the command and the
  one write of the comment, and nothing else happens.
\<close>

lemma run_outcome_flag:
  assumes "getAllChangedFiles (listFiles h) = Some allFiles"
    and "filterChangedFiles h allFiles \<noteq> []"
  shows "\<exists>comments' w b.
           (w = CreateComment b \<or> (\<exists>i. w = UpdateComment i b))
           \<and> run h comments =
               Some (comments',
                     [Exec (checkCommand (filterChangedFiles h allFiles)), w] @
                     (if err (runExec (shell h) (checkCommand (filterChangedFiles h allFiles))) \<noteq> None
                      then [SetFailed ''Prettier check failed'', SetOutput ''exitCode'' 1]
                      else [ConsoleLog ''Prettier check passed'', SetOutput ''exitCode'' 0]))"
proof -
  let ?cmd = "checkCommand (filterChangedFiles h allFiles)"
  let ?b = "if exit_code (shell h ?cmd) = 0 then passed_body
            else failed_body (trim (proc_stderr (shell h ?cmd)))"
  obtain w where w: "snd (upsert ?b comments) = [w]"
    "w = CreateComment ?b \<or> (\<exists>i. w = UpdateComment i ?b)"
    using upsert_written [of ?b comments] by blast
  have "run h comments =
      Some (fst (upsert ?b comments),
            [Exec ?cmd, w] @
            (if err (runExec (shell h) ?cmd) \<noteq> None
             then [SetFailed ''Prettier check failed'', SetOutput ''exitCode'' 1]
             else [ConsoleLog ''Prettier check passed'', SetOutput ''exitCode'' 0]))"
    unfolding run_nonempty_change_set [OF assms] w(1) by (simp add: runExec_err)
  with w(2) show ?thesis by blast
qed

text \<open>
  Claim C8 says that, with a non-empty change set, a failure of the tool marks the run
  failed and surfaces the outcome flag 1, and a pass logs the success line and surfaces the
  flag 0. The minimal variant does not: when the tool passes it logs the line and sets no
  output, and when the tool exits with a non-zero code it is aborted by the exception of
  \<open>execSync\<close>, with no call to \<open>setFailed\<close> and no output. The complete variant does what
  the claim says on the same two pull requests.
\<close>

theorem minimal_variant_sets_no_outcome:
  "main_run conforming_host [] =
     Some ([\<lparr>comment_id = 1, body = main_passed_body\<rparr>],
           [Exec ''npx prettier --check a.ts'', CreateComment main_passed_body,
            ConsoleLog ''Prettier check passed''],
           None)
   \<and> main_run violating_host [] =
     Some ([], [Exec ''npx prettier --check a.ts''], Some (ExecSyncError 1))
   \<and> map_option snd (run conforming_host []) =
     Some [Exec ''npx prettier --check a.ts'', CreateComment passed_body,
           ConsoleLog ''Prettier check passed'', SetOutput ''exitCode'' 0]
   \<and> map_option snd (run violating_host []) =
     Some [Exec ''npx prettier --check a.ts'', CreateComment violations_report,
           SetFailed ''Prettier check failed'', SetOutput ''exitCode'' 1]"
  by code_simp

text \<open>
  The complete variant, with a non-empty change set: a non-zero exit of the check
  invocation does not abort the run. \<open>runExec\<close> returns it as the error of its result, with
  the diagnostic stream, and the run goes on to write the failure comment, which shows the
  diagnostics and the remediation command, before it marks itself failed.
\<close>

lemma run_reports_nonzero_exit:
  fixes h :: host and allFiles :: "string list" and comments :: "comment list"
  defines "cmd \<equiv> checkCommand (filterChangedFiles h allFiles)"
  defines "out \<equiv> trim (proc_stderr (shell h cmd))"
  defines "b \<equiv> commentIdentifier @ [LF] @ police_light @
     '' Prettier check failed for the following files:'' @ [LF, LF] @
     ''```'' @ [LF] @ trim out @ [LF] @ ''```'' @ [LF, LF] @
     ''To fix the issue, run the following command:'' @ [LF, LF] @
     ''```'' @ [LF] @ prettierCommand out @ [LF] @ ''```''"
  assumes "getAllChangedFiles (listFiles h) = Some allFiles"
    and "filterChangedFiles h allFiles \<noteq> []"
    and "exit_code (shell h cmd) \<noteq> 0"
  shows "err (runExec (shell h) cmd) \<noteq> None
       \<and> stderr (runExec (shell h) cmd) = proc_stderr (shell h cmd)
       \<and> b \<noteq> passed_body
       \<and> (\<exists>comments' w.
             run h comments =
               Some (comments',
                     [Exec cmd, w, SetFailed ''Prettier check failed'', SetOutput ''exitCode'' 1])
             \<and> (w = CreateComment b \<or> (\<exists>i. w = UpdateComment i b))
             \<and> (\<exists>c\<in>set comments'. body c = b))"
proof -
  have fb: "b = failed_body out"
    by (simp add: b_def failed_body_def)
  obtain w where w: "snd (upsert b comments) = [w]"
    "w = CreateComment b \<or> (\<exists>i. w = UpdateComment i b)"
    using upsert_written [of b comments] by blast
  have "run h comments =
      Some (fst (upsert b comments),
            [Exec cmd, w, SetFailed ''Prettier check failed'', SetOutput ''exitCode'' 1])"
    using run_nonempty_change_set [OF assms(4,5), of comments] assms(6) w(1)
    by (simp add: cmd_def fb out_def)
  moreover have "\<exists>c\<in>set (fst (upsert b comments)). body c = b"
    by (rule upsert_has_body)
  moreover have "err (runExec (shell h) cmd) \<noteq> None"
    using assms(6) by (simp add: runExec_err)
  moreover have "b \<noteq> passed_body"
    by (simp add: b_def passed_body_def police_light_def)
  ultimately show ?thesis using w(2) by (simp add: runExec_stderr)
qed

text \<open>
  Claim C3 says that, for a non-empty candidate list, a non-zero exit of the check
  invocation is not fatal: it is kept as the outcome of the check and the failure comment
  is written. The minimal variant runs the check with \<open>execSync\<close>, which throws on a
  non-zero exit: the run is aborted after the command and writes no comment. The complete
  variant, on the same pull request, writes the failure comment.
\<close>

theorem minimal_variant_aborts_on_nonzero_exit:
  "exit_code (shell violating_host ''npx prettier --check a.ts'') = 1
   \<and> main_run violating_host [] =
     Some ([], [Exec ''npx prettier --check a.ts''], Some (ExecSyncError 1))
   \<and> run violating_host [] =
     Some ([\<lparr>comment_id = 1, body = violations_report\<rparr>],
           [Exec ''npx prettier --check a.ts'', CreateComment violations_report,
            SetFailed ''Prettier check failed'', SetOutput ''exitCode'' 1])"
  by code_simp

section \<open>The check command\<close>

lemma spaced_host_files: "getAllChangedFiles (listFiles spaced_host) = Some [''my file.ts'']"
  by code_simp

lemma spaced_host_filtered: "filterChangedFiles spaced_host [''my file.ts''] = [''my file.ts'']"
  by code_simp

text \<open>
  Claim C9. With a non-empty change set the run executes the tool in check mode on the
  filenames joined by single spaces, with no quoting and no escaping. So the command line
  for the one file \<open>my file.ts\<close> is the command line for the two files \<open>my\<close> and
  \<open>file.ts\<close>, and splits into the words of the latter; the remediation command for the
  same file has the name between double quotes.
\<close>

theorem check_command_unquoted:
  assumes "getAllChangedFiles (listFiles h) = Some allFiles"
    and "filterChangedFiles h allFiles \<noteq> []"
  shows "(\<exists>comments' es.
            run h comments =
              Some (comments',
                    Exec (''npx prettier --check '' @ join '' '' (filterChangedFiles h allFiles)) # es))
       \<and> checkCommand [''my file.ts''] = checkCommand [''my'', ''file.ts'']
       \<and> argv (checkCommand [''my file.ts'']) =
           [''npx'', ''prettier'', ''--check'', ''my'', ''file.ts'']
       \<and> prettierCommand (diagnostic [''my file.ts''] summary_line) =
           ''npx prettier --write '' @ [CHR 0x22] @ ''my file.ts'' @ [CHR 0x22]"
proof (intro conjI)
  show "\<exists>comments' es.
      run h comments =
        Some (comments',
              Exec (''npx prettier --check '' @ join '' '' (filterChangedFiles h allFiles)) # es)"
    unfolding run_nonempty_change_set [OF assms] by (simp add: checkCommand_def)
next
  show "checkCommand [''my file.ts''] = checkCommand [''my'', ''file.ts'']"
    by (simp add: checkCommand_def)
next
  show "argv (checkCommand [''my file.ts'']) = [''npx'', ''prettier'', ''--check'', ''my'', ''file.ts'']"
    by code_simp
next
  show "prettierCommand (diagnostic [''my file.ts''] summary_line) =
      ''npx prettier --write '' @ [CHR 0x22] @ ''my file.ts'' @ [CHR 0x22]"
    by code_simp
qed

theorem check_command_unquoted_witness:
  "\<exists>comments' es.
     run spaced_host [] = Some (comments', Exec ''npx prettier --check my file.ts'' # es)"
proof -
  have n: "filterChangedFiles spaced_host [''my file.ts''] \<noteq> []"
    by (simp add: spaced_host_filtered)
  from check_command_unquoted [OF spaced_host_files n, of "[]"]
  show ?thesis by (simp add: spaced_host_filtered)
qed

section \<open>Removed files\<close>

lemma getAllChangedFiles_github:
  "getAllChangedFiles (github_listFiles files) =
     Some (map filename (filter (\<lambda>f. status f \<noteq> ''removed'') files))"
  unfolding getAllChangedFiles_def collect_all by simp

lemma filterChangedFiles_subset: "set (filterChangedFiles h allFiles) \<subseteq> set allFiles"
  by (auto simp add: filterChangedFiles_def Let_def split: option.splits)

lemma upsert_no_exec: "Exec cmd \<notin> set (snd (upsert b cs))"
  by (simp add: upsert_def split: option.splits)

lemma updateOnly_no_exec: "Exec cmd \<notin> set (snd (updateOnly b cs))"
  by (simp add: updateOnly_def split: option.splits)

lemma run_exec_only_check:
  assumes "getAllChangedFiles (listFiles h) = Some allFiles"
  shows "\<exists>comments' es. run h comments = Some (comments', es)
           \<and> (\<forall>cmd. Exec cmd \<in> set es \<longrightarrow> cmd = checkCommand (filterChangedFiles h allFiles))"
proof (cases "filterChangedFiles h allFiles = []")
  case True
  with assms have "run h comments = Some (updateOnly passed_body comments)"
    by (rule run_empty_change_set)
  then have "run h comments =
      Some (fst (updateOnly passed_body comments), snd (updateOnly passed_body comments))"
    by simp
  then show ?thesis using updateOnly_no_exec by blast
next
  case False
  show ?thesis
    unfolding run_nonempty_change_set [OF assms False]
    by (auto simp add: upsert_no_exec)
qed

text \<open>
  The complete variant: for a file list served page by page, the collector returns the filenames of
  the entries whose status is not \<open>removed\<close>, and the extension and ignore filters are
  applied to that list: the only command the run executes is the check of the filtered
  list, and every filename in it belongs to an entry that is not removed.
\<close>

lemma run_excludes_removed_files:
  "getAllChangedFiles (github_listFiles files) =
     Some (map filename (filter (\<lambda>f. status f \<noteq> ''removed'') files))
   \<and> (listFiles h = github_listFiles files \<longrightarrow>
        (\<exists>comments' es. run h comments = Some (comments', es)
           \<and> (\<forall>cmd. Exec cmd \<in> set es \<longrightarrow>
                 cmd = checkCommand (filterChangedFiles h
                         (map filename (filter (\<lambda>f. status f \<noteq> ''removed'') files))))))
   \<and> (\<forall>n\<in>set (filterChangedFiles h (map filename (filter (\<lambda>f. status f \<noteq> ''removed'') files))).
        \<exists>f\<in>set files. filename f = n \<and> status f \<noteq> ''removed'')"
proof (intro conjI impI ballI)
  show "getAllChangedFiles (github_listFiles files) =
     Some (map filename (filter (\<lambda>f. status f \<noteq> ''removed'') files))"
    by (rule getAllChangedFiles_github)
next
  assume "listFiles h = github_listFiles files"
  then have "getAllChangedFiles (listFiles h) =
      Some (map filename (filter (\<lambda>f. status f \<noteq> ''removed'') files))"
    by (simp add: getAllChangedFiles_github)
  then show "\<exists>comments' es. run h comments = Some (comments', es)
           \<and> (\<forall>cmd. Exec cmd \<in> set es \<longrightarrow>
                 cmd = checkCommand (filterChangedFiles h
                         (map filename (filter (\<lambda>f. status f \<noteq> ''removed'') files))))"
    by (rule run_exec_only_check)
next
  fix n
  assume "n \<in> set (filterChangedFiles h (map filename (filter (\<lambda>f. status f \<noteq> ''removed'') files)))"
  then have "n \<in> set (map filename (filter (\<lambda>f. status f \<noteq> ''removed'') files))"
    using filterChangedFiles_subset by blast
  then show "\<exists>f\<in>set files. filename f = n \<and> status f \<noteq> ''removed''" by auto
qed

text \<open>
  Claim C5 says that every entry whose status is \<open>removed\<close> is left out of the collected
  change set, so that a removed file is never passed to the tool. The collector of the
  minimal variant has no such filter: on a pull request with the removed file \<open>old.md\<close> it
  returns that name, and the run checks it. The complete variant leaves it out.
\<close>

theorem minimal_variant_checks_removed_file:
  "status (example_files ! 2) = ''removed'' \<and> filename (example_files ! 2) = ''old.md''
   \<and> main_getAllChangedFiles (github_listFiles example_files) = Some [''a.ts'', ''b.png'', ''old.md'']
   \<and> main_run passing_host [] =
     Some ([\<lparr>comment_id = 1, body = main_passed_body\<rparr>],
           [Exec ''npx prettier --check a.ts old.md'', CreateComment main_passed_body,
            ConsoleLog ''Prettier check passed''],
           None)
   \<and> getAllChangedFiles (github_listFiles example_files) = Some [''a.ts'', ''b.png'']
   \<and> map_option snd (run passing_host []) =
     Some [Exec ''npx prettier --check a.ts'', CreateComment passed_body,
           ConsoleLog ''Prettier check passed'', SetOutput ''exitCode'' 0]"
  by code_simp

section \<open>At most one marker comment\<close>



















end
